theory Spec2Isabelle
  imports Main
begin

section \<open>The constants of the config module\<close>

text \<open>
  Modelled from the spec: the module \<^verbatim>\<open>config\<close> is imported by \<^verbatim>\<open>model.py\<close> but is not
  among the source files. The spec names six fixed colour values and three spatial axes.
  The colours are the constructors of \<open>color\<close>; an absent label (Python's \<^verbatim>\<open>None\<close>) is
  \<open>None\<close> of \<open>color option\<close>. The axis names \<^verbatim>\<open>config.x\<close>, \<^verbatim>\<open>config.y\<close>, \<^verbatim>\<open>config.z\<close> are three
  distinct values, each naming the coordinate and the label of its own axis.
\<close>

datatype color = RED | ORANGE | WHITE | YELLOW | GREEN | BLUE

datatype axis = config_x | config_y | config_z

section \<open>Exceptions\<close>

datatype error = AttributeError | TypeError | ValueError | UnboundLocalError | KeyError

section \<open>Position\<close>

text \<open>
  \<^verbatim>\<open>class Position(tuple)\<close>: a triple of integers. \<^verbatim>\<open>__getattr__\<close> reads index 0, 1, 2 under
  the names x, y, z (\<^verbatim>\<open>ATTR_MAP\<close>).
\<close>

type_synonym position = "int \<times> int \<times> int"

fun Position_getattr :: "position \<Rightarrow> axis \<Rightarrow> int" where
  "Position_getattr (x, y, z) config_x = x"
| "Position_getattr (x, y, z) config_y = y"
| "Position_getattr (x, y, z) config_z = z"

section \<open>Piece\<close>

text \<open>
  \<^verbatim>\<open>class Piece\<close>: three colour labels, one per axis. The source mutates a piece in place;
  every piece object is created by \<^verbatim>\<open>_generate_init_pieces\<close> for one key of the dictionary
  and is re-inserted under one key by every rotation, so no piece is shared between two
  keys and the in-place update is the replacement of the value stored under the key.
\<close>

record piece =
  piece_x :: "color option"
  piece_y :: "color option"
  piece_z :: "color option"

fun Piece_rotate :: "piece \<Rightarrow> axis \<Rightarrow> piece" where
  "Piece_rotate p config_x = \<lparr>piece_x = piece_x p, piece_y = piece_z p, piece_z = piece_y p\<rparr>"
| "Piece_rotate p config_y = \<lparr>piece_x = piece_z p, piece_y = piece_y p, piece_z = piece_x p\<rparr>"
| "Piece_rotate p config_z = \<lparr>piece_x = piece_y p, piece_y = piece_x p, piece_z = piece_z p\<rparr>"

section \<open>Dictionaries\<close>

text \<open>
  A Python \<^verbatim>\<open>dict\<close> keeps its entries in insertion order: it is an association list.
  \<^verbatim>\<open>d[k] = v\<close> replaces the value of an existing key where it stands and appends a new key
  at the end. \<^verbatim>\<open>d[k]\<close> raises \<^verbatim>\<open>KeyError\<close> on a missing key.
\<close>

fun dict_set :: "('k \<times> 'v) list \<Rightarrow> 'k \<Rightarrow> 'v \<Rightarrow> ('k \<times> 'v) list" where
  "dict_set [] k v = [(k, v)]"
| "dict_set ((k', v') # d) k v =
     (if k' = k then (k', v) # d else (k', v') # dict_set d k v)"

fun dict_get :: "('k \<times> 'v) list \<Rightarrow> 'k \<Rightarrow> error + 'v" where
  "dict_get [] k = Inl KeyError"
| "dict_get ((k', v') # d) k = (if k' = k then Inr v' else dict_get d k)"

section \<open>Rubik\<close>

record rubik =
  rubik_size :: int
  coord_limit :: int
  pieces :: "(position \<times> piece) list"

text \<open>
  The result of a call that may raise: \<open>Inr\<close> the cube after a normal return, \<open>Inl\<close> the
  exception together with the cube as the call left it.
\<close>

type_synonym outcome = "(error \<times> rubik) + rubik"

definition Rubik_getitem :: "rubik \<Rightarrow> position \<Rightarrow> error + piece" where
  "Rubik_getitem self position = dict_get (pieces self) position"

definition get_init_piece_color :: "rubik \<Rightarrow> position \<Rightarrow> piece" where
  "get_init_piece_color self position =
     \<lparr>piece_x =
        (if Position_getattr position config_x = coord_limit self then Some ORANGE
         else if Position_getattr position config_x = - coord_limit self then Some RED
         else None),
      piece_y =
        (if Position_getattr position config_y = coord_limit self then Some YELLOW
         else if Position_getattr position config_y = - coord_limit self then Some WHITE
         else None),
      piece_z =
        (if Position_getattr position config_z = coord_limit self then Some GREEN
         else if Position_getattr position config_z = - coord_limit self then Some BLUE
         else None)\<rparr>"

text \<open>\<^verbatim>\<open>range(-limit, limit + 1)\<close> is the list of the integers from \<open>-limit\<close> to \<open>limit\<close>.\<close>

definition coordinate_range :: "rubik \<Rightarrow> int list" where
  "coordinate_range self = [- coord_limit self .. coord_limit self]"

definition init_positions :: "rubik \<Rightarrow> position list" where
  "init_positions self =
     concat (map (\<lambda>x. concat (map (\<lambda>y. map (\<lambda>z. (x, y, z)) (coordinate_range self))
                                   (coordinate_range self)))
                 (coordinate_range self))"

definition generate_init_pieces :: "rubik \<Rightarrow> rubik" where
  "generate_init_pieces self =
     self\<lparr>pieces :=
       foldl (\<lambda>d position. dict_set d position (get_init_piece_color self position))
             (pieces self) (init_positions self)\<rparr>"

definition Rubik_init :: "int \<Rightarrow> rubik" where
  "Rubik_init n =
     generate_init_pieces \<lparr>rubik_size = n, coord_limit = n div 2, pieces = []\<rparr>"

subsection \<open>Rotation\<close>

text \<open>
  \<^verbatim>\<open>list(map(abs, rotation)).index(1)\<close> is the first index whose component has absolute
  value 1, and raises \<^verbatim>\<open>ValueError\<close> when there is none.
\<close>

fun rotation_axis :: "int \<times> int \<times> int \<Rightarrow> error + axis" where
  "rotation_axis (a, b, c) =
     (if \<bar>a\<bar> = 1 then Inr config_x
      else if \<bar>b\<bar> = 1 then Inr config_y
      else if \<bar>c\<bar> = 1 then Inr config_z
      else Inl ValueError)"

fun rotation_sign :: "int \<times> int \<times> int \<Rightarrow> int" where
  "rotation_sign (a, b, c) = a + b + c"

fun rotation_direction :: "int \<times> int \<times> int \<Rightarrow> bool \<Rightarrow> int \<times> int \<times> int" where
  "rotation_direction (a, b, c) inverse_flag =
     (if inverse_flag then (a * (- 1), b * (- 1), c * (- 1)) else (a * 1, b * 1, c * 1))"

text \<open>
  The \<^verbatim>\<open>if\<close>/\<^verbatim>\<open>elif\<close> chain on \<^verbatim>\<open>direction\<close>. When no branch matches, \<^verbatim>\<open>new_position\<close> is
  not assigned (\<open>None\<close>), and the statement that reads it raises \<^verbatim>\<open>UnboundLocalError\<close>:
  the direction is the same at every iteration, so no earlier iteration has assigned it.
\<close>

fun new_position :: "int \<times> int \<times> int \<Rightarrow> position \<Rightarrow> position option" where
  "new_position direction (x, y, z) =
     (if direction = (1, 0, 0) then Some (x, z, - y)
      else if direction = (- 1, 0, 0) then Some (x, - z, y)
      else if direction = (0, 1, 0) then Some (- z, y, x)
      else if direction = (0, - 1, 0) then Some (z, y, - x)
      else if direction = (0, 0, 1) then Some (y, - x, z)
      else if direction = (0, 0, - 1) then Some (- y, x, z)
      else None)"

text \<open>
  The loop over \<^verbatim>\<open>self.pieces.items()\<close>, with \<^verbatim>\<open>new_pieces\<close> as accumulator. The loop
  raises before any piece has been rotated, or not at all.
\<close>

fun rotation_loop ::
  "axis \<Rightarrow> int \<Rightarrow> int \<times> int \<times> int \<Rightarrow> (position \<times> piece) list \<Rightarrow> (position \<times> piece) list
     \<Rightarrow> error + (position \<times> piece) list" where
  "rotation_loop axis target direction [] new_pieces = Inr new_pieces"
| "rotation_loop axis target direction ((position, piece) # rest) new_pieces =
     (if Position_getattr position axis = target then
        (case new_position direction position of
           None \<Rightarrow> Inl UnboundLocalError
         | Some new_pos \<Rightarrow>
             rotation_loop axis target direction rest
               (dict_set new_pieces new_pos (Piece_rotate piece axis)))
      else rotation_loop axis target direction rest (dict_set new_pieces position piece))"

definition make_rotation :: "rubik \<Rightarrow> int \<times> int \<times> int \<Rightarrow> bool \<Rightarrow> outcome" where
  "make_rotation self rotation inverse_flag =
     (case rotation_axis rotation of
        Inl e \<Rightarrow> Inl (e, self)
      | Inr axis \<Rightarrow>
          (case rotation_loop axis (rotation_sign rotation * coord_limit self)
                  (rotation_direction rotation inverse_flag) (pieces self) [] of
             Inl e \<Rightarrow> Inl (e, self)
           | Inr new_pieces \<Rightarrow> Inr (self\<lparr>pieces := new_pieces\<rparr>)))"

subsection \<open>The eighteen named moves\<close>

text \<open>One method after another: the second runs on the cube the first returned.\<close>

definition then_call :: "outcome \<Rightarrow> (rubik \<Rightarrow> outcome) \<Rightarrow> outcome" where
  "then_call r f = (case r of Inl e \<Rightarrow> Inl e | Inr self \<Rightarrow> f self)"

definition R :: "rubik \<Rightarrow> outcome" where "R self = make_rotation self (1, 0, 0) False"
definition Ri :: "rubik \<Rightarrow> outcome" where "Ri self = make_rotation self (1, 0, 0) True"
definition R2 :: "rubik \<Rightarrow> outcome" where "R2 self = then_call (R self) R"

definition L :: "rubik \<Rightarrow> outcome" where "L self = make_rotation self (- 1, 0, 0) False"
definition Li :: "rubik \<Rightarrow> outcome" where "Li self = make_rotation self (- 1, 0, 0) True"
definition L2 :: "rubik \<Rightarrow> outcome" where "L2 self = then_call (L self) L"

definition F :: "rubik \<Rightarrow> outcome" where "F self = make_rotation self (0, 0, 1) False"
definition Fi :: "rubik \<Rightarrow> outcome" where "Fi self = make_rotation self (0, 0, 1) True"
definition F2 :: "rubik \<Rightarrow> outcome" where "F2 self = then_call (F self) F"

definition B :: "rubik \<Rightarrow> outcome" where "B self = make_rotation self (0, 0, - 1) False"
definition Bi :: "rubik \<Rightarrow> outcome" where "Bi self = make_rotation self (0, 0, - 1) True"
definition B2 :: "rubik \<Rightarrow> outcome" where "B2 self = then_call (B self) B"

definition U :: "rubik \<Rightarrow> outcome" where "U self = make_rotation self (0, 1, 0) False"
definition Ui :: "rubik \<Rightarrow> outcome" where "Ui self = make_rotation self (0, 1, 0) True"
definition U2 :: "rubik \<Rightarrow> outcome" where "U2 self = then_call (U self) U"

definition D :: "rubik \<Rightarrow> outcome" where "D self = make_rotation self (0, - 1, 0) False"
definition Di :: "rubik \<Rightarrow> outcome" where "Di self = make_rotation self (0, - 1, 0) True"
definition D2 :: "rubik \<Rightarrow> outcome" where "D2 self = then_call (D self) D"

text \<open>
  The call \<^verbatim>\<open>Rubik(size)\<close> on an integer: \<^verbatim>\<open>__init__\<close> has no \<^verbatim>\<open>raise\<close> and no assertion,
  floor division by 2 is defined on every integer, and the three loops run over finite
  ranges, so the call returns the cube that \<open>Rubik_init\<close> builds.
\<close>

definition Rubik_new :: "int \<Rightarrow> error + rubik" where
  "Rubik_new n = Inr (Rubik_init n)"

section \<open>Controller\<close>

text \<open>
  The controller owns one cube, a view and a logger; the view and the log are output only,
  so the controller's methods are functions of the cube.

  \<^verbatim>\<open>getattr(self._cube, move)\<close> looks the name up on the cube object. The names that
  \<^verbatim>\<open>model.py\<close> gives a cube are the methods and properties of \<^verbatim>\<open>class Rubik\<close> and the three
  instance fields. Any other name of the form \<^verbatim>\<open>__name__\<close> may be supplied by Python's base
  class \<^verbatim>\<open>object\<close>, whose attributes all have that form; what such an attribute does when
  called is not determined by this program. Every remaining name raises
  \<^verbatim>\<open>AttributeError\<close>.
\<close>

datatype attribute =
    Method "rubik \<Rightarrow> outcome"
  | RequiresArguments
  | NotCallable
  | Inherited

definition move_names :: "string list" where
  "move_names =
     [''R'', ''Ri'', ''R2'', ''L'', ''Li'', ''L2'', ''F'', ''Fi'', ''F2'',
      ''B'', ''Bi'', ''B2'', ''U'', ''Ui'', ''U2'', ''D'', ''Di'', ''D2'']"

definition Rubik_attributes :: "(string \<times> attribute) list" where
  "Rubik_attributes =
     [(''__init__'', RequiresArguments),
      (''__getitem__'', RequiresArguments),
      (''_get_init_piece_color'', RequiresArguments),
      (''_generate_init_pieces'', Method (\<lambda>self. Inr (generate_init_pieces self))),
      (''_make_rotation'', RequiresArguments),
      (''coord_limit'', NotCallable),
      (''size'', NotCallable),
      (''pieces'', NotCallable),
      (''R'', Method R), (''Ri'', Method Ri), (''R2'', Method R2),
      (''L'', Method L), (''Li'', Method Li), (''L2'', Method L2),
      (''F'', Method F), (''Fi'', Method Fi), (''F2'', Method F2),
      (''B'', Method B), (''Bi'', Method Bi), (''B2'', Method B2),
      (''U'', Method U), (''Ui'', Method Ui), (''U2'', Method U2),
      (''D'', Method D), (''Di'', Method Di), (''D2'', Method D2),
      (''_size'', NotCallable),
      (''_coord_limit'', NotCallable),
      (''_pieces'', NotCallable)]"

definition dunder :: "string \<Rightarrow> bool" where
  "dunder name = (4 < length name \<and> take 2 name = ''__'' \<and> take 2 (rev name) = ''__'')"

definition attribute_names :: "string list" where
  "attribute_names = map fst Rubik_attributes"

definition Rubik_getattr :: "string \<Rightarrow> error + attribute" where
  "Rubik_getattr name =
     (case map_of Rubik_attributes name of
        Some a \<Rightarrow> Inr a
      | None \<Rightarrow> if dunder name then Inr Inherited else Inl AttributeError)"

text \<open>The method that a move name stands for.\<close>

definition method_named :: "string \<Rightarrow> rubik \<Rightarrow> outcome" where
  "method_named name = (case Rubik_getattr name of Inr (Method m) \<Rightarrow> m | _ \<Rightarrow> Inr)"

text \<open>
  Calling the attribute with no argument. A method with required parameters and a value
  that is an integer or a dictionary raise \<^verbatim>\<open>TypeError\<close> before any statement of the
  model runs. \<open>None\<close>: the attribute is not one of this program.
\<close>

fun call_attribute :: "attribute \<Rightarrow> rubik \<Rightarrow> outcome option" where
  "call_attribute (Method f) self = Some (f self)"
| "call_attribute RequiresArguments self = Some (Inl (TypeError, self))"
| "call_attribute NotCallable self = Some (Inl (TypeError, self))"
| "call_attribute Inherited self = None"

definition dispatch :: "rubik \<Rightarrow> string \<Rightarrow> outcome option" where
  "dispatch cube move =
     (case Rubik_getattr move of
        Inl e \<Rightarrow> Some (Inl (e, cube))
      | Inr a \<Rightarrow> call_attribute a cube)"

text \<open>
  \<^verbatim>\<open>str.split()\<close> without argument: the maximal runs of characters that are not
  whitespace. Characters are the code points below 256.
\<close>

definition is_space :: "char \<Rightarrow> bool" where
  "is_space c =
     (c \<in> set [CHR 0x09, CHR 0x0A, CHR 0x0B, CHR 0x0C, CHR 0x0D, CHR 0x1C, CHR 0x1D,
               CHR 0x1E, CHR 0x1F, CHR 0x20, CHR 0x85, CHR 0xA0])"

fun split_from :: "string \<Rightarrow> string \<Rightarrow> string list" where
  "split_from [] token = (if token = [] then [] else [token])"
| "split_from (c # cs) token =
     (if is_space c then (if token = [] then split_from cs [] else token # split_from cs [])
      else split_from cs (token @ [c]))"

definition str_split :: "string \<Rightarrow> string list" where
  "str_split s = split_from s []"

fun apply_moves :: "rubik \<Rightarrow> string list \<Rightarrow> outcome option" where
  "apply_moves cube [] = Some (Inr cube)"
| "apply_moves cube (move # rest) =
     (case dispatch cube move of
        None \<Rightarrow> None
      | Some (Inl e) \<Rightarrow> Some (Inl e)
      | Some (Inr cube') \<Rightarrow> apply_moves cube' rest)"

definition apply_notation :: "rubik \<Rightarrow> string \<Rightarrow> outcome option" where
  "apply_notation cube notation = apply_moves cube (str_split notation)"

definition chess_pattern :: "rubik \<Rightarrow> outcome option" where
  "chess_pattern cube = apply_notation cube ''R2 L2 B2 F2 U2 D2''"

text \<open>
  \<^verbatim>\<open>make_move_callback\<close>: \<open>Inr (b, cube)\<close> is the return of the Boolean \<open>b\<close>; an exception
  other than \<^verbatim>\<open>AttributeError\<close> leaves the method.
\<close>

definition make_move_callback ::
  "rubik \<Rightarrow> string \<Rightarrow> ((error \<times> rubik) + (bool \<times> rubik)) option" where
  "make_move_callback cube move =
     (case dispatch cube move of
        None \<Rightarrow> None
      | Some (Inl (e, cube')) \<Rightarrow>
          if e = AttributeError then Some (Inr (False, cube')) else Some (Inl (e, cube'))
      | Some (Inr cube') \<Rightarrow> Some (Inr (True, cube')))"

section \<open>Vocabulary of the properties\<close>

text \<open>The methods behind the eighteen names, and the twelve quarter turns among them.\<close>

definition named_moves :: "(rubik \<Rightarrow> outcome) list" where
  "named_moves = [R, Ri, R2, L, Li, L2, F, Fi, F2, B, Bi, B2, U, Ui, U2, D, Di, D2]"

definition quarter_turns :: "(rubik \<Rightarrow> outcome) list" where
  "quarter_turns = [R, L, U, D, F, B, Ri, Li, Ui, Di, Fi, Bi]"

definition inverse_pairs :: "((rubik \<Rightarrow> outcome) \<times> (rubik \<Rightarrow> outcome)) list" where
  "inverse_pairs = [(R, Ri), (L, Li), (U, Ui), (D, Di), (F, Fi), (B, Bi)]"

text \<open>A sequence of method calls on the cube, each on the result of the one before.\<close>

definition perform :: "(rubik \<Rightarrow> outcome) list \<Rightarrow> rubik \<Rightarrow> outcome" where
  "perform ms self = foldl then_call (Inr self) ms"

text \<open>The states a cube of size \<open>n\<close> goes through: its construction, then named moves.\<close>

inductive reachable :: "int \<Rightarrow> rubik \<Rightarrow> bool" where
  init: "reachable n (Rubik_init n)"
| move: "reachable n s \<Longrightarrow> m \<in> set named_moves \<Longrightarrow> m s = Inr s' \<Longrightarrow> reachable n s'"

text \<open>The coordinate cube \<open>[-limit, limit]\<^sup>3\<close>.\<close>

definition cube_positions :: "int \<Rightarrow> position set" where
  "cube_positions limit =
     {(x, y, z). - limit \<le> x \<and> x \<le> limit \<and> - limit \<le> y \<and> y \<le> limit \<and> - limit \<le> z \<and> z \<le> limit}"

text \<open>The piece found at a position of the cube that a call returned; none when it raised.\<close>

definition piece_after :: "outcome option \<Rightarrow> position \<Rightarrow> piece option" where
  "piece_after r p = (case r of Some (Inr s) \<Rightarrow> map_of (pieces s) p | _ \<Rightarrow> None)"

text \<open>
  Where the chess pattern puts the piece of a position of the size-3 cube: an edge position
  (exactly one coordinate is 0) goes to the opposite position, every other one stays.
\<close>

definition chess_target :: "position \<Rightarrow> position" where
  "chess_target p =
     (case p of (x, y, z) \<Rightarrow>
        if length (filter (\<lambda>c. c = 0) [x, y, z]) = 1 then (- x, - y, - z) else (x, y, z))"

text \<open>The shell rule for one entry of the mapping: a label is present exactly on the shell.\<close>

definition shell_ok :: "int \<Rightarrow> position \<times> piece \<Rightarrow> bool" where
  "shell_ok limit e =
     (case e of ((x, y, z), c) \<Rightarrow>
        (piece_x c \<noteq> None) = (x = limit \<or> x = - limit) \<and>
        (piece_y c \<noteq> None) = (y = limit \<or> y = - limit) \<and>
        (piece_z c \<noteq> None) = (z = limit \<or> z = - limit))"

section \<open>A rotation as a map over the entries\<close>

text \<open>
  The six directions of the table, each with the axis it turns about, and the six rotation
  vectors of the named moves.
\<close>

definition about :: "axis \<Rightarrow> int \<times> int \<times> int \<Rightarrow> bool" where
  "about axis direction =
     (axis = config_x \<and> (direction = (1, 0, 0) \<or> direction = (- 1, 0, 0)) \<or>
      axis = config_y \<and> (direction = (0, 1, 0) \<or> direction = (0, - 1, 0)) \<or>
      axis = config_z \<and> (direction = (0, 0, 1) \<or> direction = (0, 0, - 1)))"

definition unit_rotation :: "int \<times> int \<times> int \<Rightarrow> bool" where
  "unit_rotation rotation =
     (rotation \<in> set [(1, 0, 0), (- 1, 0, 0), (0, 1, 0), (0, - 1, 0), (0, 0, 1), (0, 0, - 1)])"

definition axis_of :: "int \<times> int \<times> int \<Rightarrow> axis" where
  "axis_of rotation = (case rotation_axis rotation of Inr a \<Rightarrow> a | Inl e \<Rightarrow> config_x)"

text \<open>
  What one iteration of the loop does to the key and to the entry, and the cube after a
  whole rotation when no two entries collide.
\<close>

definition relabel :: "axis \<Rightarrow> int \<Rightarrow> int \<times> int \<times> int \<Rightarrow> position \<Rightarrow> position" where
  "relabel axis target direction position =
     (if Position_getattr position axis = target
      then (case new_position direction position of Some q \<Rightarrow> q | None \<Rightarrow> position)
      else position)"

definition turn_entry ::
  "axis \<Rightarrow> int \<Rightarrow> int \<times> int \<times> int \<Rightarrow> position \<times> piece \<Rightarrow> position \<times> piece" where
  "turn_entry axis target direction e =
     (if Position_getattr (fst e) axis = target
      then (relabel axis target direction (fst e), Piece_rotate (snd e) axis)
      else e)"

definition turn :: "int \<times> int \<times> int \<Rightarrow> bool \<Rightarrow> rubik \<Rightarrow> rubik" where
  "turn rotation inverse_flag self =
     self\<lparr>pieces :=
       map (turn_entry (axis_of rotation) (rotation_sign rotation * coord_limit self)
              (rotation_direction rotation inverse_flag))
           (pieces self)\<rparr>"

text \<open>The methods that are one call of \<open>make_rotation\<close> with a unit vector.\<close>

definition is_quarter :: "(rubik \<Rightarrow> outcome) \<Rightarrow> bool" where
  "is_quarter m = (\<exists>r i. unit_rotation r \<and> m = (\<lambda>self. make_rotation self r i))"

text \<open>The invariant of a cube with coordinate limit \<open>l\<close>.\<close>

definition cube_inv :: "int \<Rightarrow> rubik \<Rightarrow> bool" where
  "cube_inv l s =
     (coord_limit s = l \<and> distinct (map fst (pieces s)) \<and>
      set (map fst (pieces s)) = cube_positions l \<and> (\<forall>e \<in> set (pieces s). shell_ok l e))"

section \<open>Lemmas\<close>

lemma new_position_unit:
  "new_position (1, 0, 0) (x, y, z) = Some (x, z, - y)"
  "new_position (- 1, 0, 0) (x, y, z) = Some (x, - z, y)"
  "new_position (0, 1, 0) (x, y, z) = Some (- z, y, x)"
  "new_position (0, - 1, 0) (x, y, z) = Some (z, y, - x)"
  "new_position (0, 0, 1) (x, y, z) = Some (y, - x, z)"
  "new_position (0, 0, - 1) (x, y, z) = Some (- y, x, z)"
  by simp_all

lemma about_cases:
  assumes "about axis direction"
  obtains "axis = config_x" "direction = (1, 0, 0)"
        | "axis = config_x" "direction = (- 1, 0, 0)"
        | "axis = config_y" "direction = (0, 1, 0)"
        | "axis = config_y" "direction = (0, - 1, 0)"
        | "axis = config_z" "direction = (0, 0, 1)"
        | "axis = config_z" "direction = (0, 0, - 1)"
  using assms unfolding about_def by blast

lemma relabel_unit:
  "relabel config_x t (1, 0, 0) (x, y, z) = (if x = t then (x, z, - y) else (x, y, z))"
  "relabel config_x t (- 1, 0, 0) (x, y, z) = (if x = t then (x, - z, y) else (x, y, z))"
  "relabel config_y t (0, 1, 0) (x, y, z) = (if y = t then (- z, y, x) else (x, y, z))"
  "relabel config_y t (0, - 1, 0) (x, y, z) = (if y = t then (z, y, - x) else (x, y, z))"
  "relabel config_z t (0, 0, 1) (x, y, z) = (if z = t then (y, - x, z) else (x, y, z))"
  "relabel config_z t (0, 0, - 1) (x, y, z) = (if z = t then (- y, x, z) else (x, y, z))"
  unfolding relabel_def by (simp_all only: new_position_unit Position_getattr.simps option.case)

lemma dict_set_fresh: "k \<notin> fst ` set d \<Longrightarrow> dict_set d k v = d @ [(k, v)]"
  by (induction d) auto

lemma fst_turn_entry: "fst (turn_entry axis target direction e) = relabel axis target direction (fst e)"
  by (simp add: turn_entry_def relabel_def)

lemma about_new_position:
  assumes "about axis direction"
  shows "\<exists>q. new_position direction p = Some q"
proof -
  obtain x y z where p: "p = (x, y, z)" by (cases p)
  from assms show ?thesis
    by (rule about_cases) (simp_all only: p new_position_unit, blast+)
qed

lemma rotation_loop_map:
  assumes "about axis direction"
  shows "distinct (map fst acc @ map (relabel axis target direction) (map fst ps)) \<Longrightarrow>
         rotation_loop axis target direction ps acc =
           Inr (acc @ map (turn_entry axis target direction) ps)"
proof (induction ps arbitrary: acc)
  case Nil
  then show ?case by simp
next
  case (Cons e ps)
  obtain p c where e: "e = (p, c)" by (cases e)
  obtain q where q: "new_position direction p = Some q"
    using about_new_position [OF assms] by blast
  let ?e' = "turn_entry axis target direction e"
  from Cons.prems have fresh: "fst ?e' \<notin> fst ` set acc"
    by (auto simp: fst_turn_entry e)
  from Cons.prems have d: "distinct (map fst (acc @ [?e']) @ map (relabel axis target direction) (map fst ps))"
    by (auto simp: fst_turn_entry e)
  have step: "rotation_loop axis target direction (e # ps) acc =
              rotation_loop axis target direction ps (dict_set acc (fst ?e') (snd ?e'))"
    by (simp add: e q turn_entry_def relabel_def del: new_position.simps)
  have "dict_set acc (fst ?e') (snd ?e') = acc @ [?e']"
    using dict_set_fresh [OF fresh] by simp
  with step Cons.IH [OF d] show ?case by simp
qed

lemma relabel_inj:
  assumes "about axis direction"
  shows "inj (relabel axis target direction)"
proof (rule injI)
  fix p q :: position
  assume eq: "relabel axis target direction p = relabel axis target direction q"
  obtain x y z where p: "p = (x, y, z)" by (cases p)
  obtain x' y' z' where q: "q = (x', y', z')" by (cases q)
  from assms show "p = q"
  proof (rule about_cases)
    assume "axis = config_x" "direction = (1, 0, 0)"
    with eq show ?thesis by (simp add: p q relabel_unit split: if_splits)
  next
    assume "axis = config_x" "direction = (- 1, 0, 0)"
    with eq show ?thesis by (simp add: p q relabel_unit split: if_splits)
  next
    assume "axis = config_y" "direction = (0, 1, 0)"
    with eq show ?thesis by (simp add: p q relabel_unit split: if_splits)
  next
    assume "axis = config_y" "direction = (0, - 1, 0)"
    with eq show ?thesis by (simp add: p q relabel_unit split: if_splits)
  next
    assume "axis = config_z" "direction = (0, 0, 1)"
    with eq show ?thesis by (simp add: p q relabel_unit split: if_splits)
  next
    assume "axis = config_z" "direction = (0, 0, - 1)"
    with eq show ?thesis by (simp add: p q relabel_unit split: if_splits)
  qed
qed

lemma distinct_relabel:
  assumes "about axis direction" and "distinct ks"
  shows "distinct (map (relabel axis target direction) ks)"
proof -
  have "inj_on (relabel axis target direction) (set ks)"
    using relabel_inj [OF assms(1)] by (rule inj_on_subset) simp
  with assms(2) show ?thesis by (simp add: distinct_map)
qed

lemma unit_rotation_cases:
  assumes "unit_rotation rotation"
  obtains "rotation = (1, 0, 0)" | "rotation = (- 1, 0, 0)" | "rotation = (0, 1, 0)"
        | "rotation = (0, - 1, 0)" | "rotation = (0, 0, 1)" | "rotation = (0, 0, - 1)"
  using assms unfolding unit_rotation_def by auto

lemma unit_rotation_axis:
  assumes "unit_rotation rotation"
  shows "rotation_axis rotation = Inr (axis_of rotation)"
  using assms by (rule unit_rotation_cases) (simp_all add: axis_of_def)

lemma unit_rotation_about:
  assumes "unit_rotation rotation"
  shows "about (axis_of rotation) (rotation_direction rotation inverse_flag)"
  using assms by (rule unit_rotation_cases) (simp_all add: axis_of_def about_def)

lemma make_rotation_turn:
  assumes u: "unit_rotation rotation" and d: "distinct (map fst (pieces self))"
  shows "make_rotation self rotation inverse_flag = Inr (turn rotation inverse_flag self)"
proof -
  let ?a = "axis_of rotation"
  let ?t = "rotation_sign rotation * coord_limit self"
  let ?d = "rotation_direction rotation inverse_flag"
  have ab: "about ?a ?d" by (rule unit_rotation_about [OF u])
  have "distinct (map (relabel ?a ?t ?d) (map fst (pieces self)))"
    by (rule distinct_relabel [OF ab d])
  then have "rotation_loop ?a ?t ?d (pieces self) [] = Inr (map (turn_entry ?a ?t ?d) (pieces self))"
    using rotation_loop_map [OF ab, of "[]" ?t "pieces self"] by simp
  then show ?thesis
    by (simp add: make_rotation_def unit_rotation_axis [OF u] turn_def)
qed

lemma turn_fields [simp]:
  "coord_limit (turn rotation inverse_flag self) = coord_limit self"
  "rubik_size (turn rotation inverse_flag self) = rubik_size self"
  by (simp_all add: turn_def)

lemma turn_keys:
  "map fst (pieces (turn rotation inverse_flag self)) =
     map (relabel (axis_of rotation) (rotation_sign rotation * coord_limit self)
            (rotation_direction rotation inverse_flag)) (map fst (pieces self))"
  by (simp add: turn_def fst_turn_entry comp_def)

lemma turn_distinct:
  "unit_rotation rotation \<Longrightarrow> distinct (map fst (pieces self)) \<Longrightarrow>
     distinct (map fst (pieces (turn rotation inverse_flag self)))"
  unfolding turn_keys by (rule distinct_relabel [OF unit_rotation_about])

lemma Piece_rotate_twice: "Piece_rotate (Piece_rotate c a) a = c"
  by (cases a) simp_all

lemma turn_entry_unit:
  "turn_entry config_x t (1, 0, 0) ((x, y, z), c) =
     (if x = t then ((x, z, - y), Piece_rotate c config_x) else ((x, y, z), c))"
  "turn_entry config_x t (- 1, 0, 0) ((x, y, z), c) =
     (if x = t then ((x, - z, y), Piece_rotate c config_x) else ((x, y, z), c))"
  "turn_entry config_y t (0, 1, 0) ((x, y, z), c) =
     (if y = t then ((- z, y, x), Piece_rotate c config_y) else ((x, y, z), c))"
  "turn_entry config_y t (0, - 1, 0) ((x, y, z), c) =
     (if y = t then ((z, y, - x), Piece_rotate c config_y) else ((x, y, z), c))"
  "turn_entry config_z t (0, 0, 1) ((x, y, z), c) =
     (if z = t then ((y, - x, z), Piece_rotate c config_z) else ((x, y, z), c))"
  "turn_entry config_z t (0, 0, - 1) ((x, y, z), c) =
     (if z = t then ((- y, x, z), Piece_rotate c config_z) else ((x, y, z), c))"
  unfolding turn_entry_def by (simp_all add: relabel_unit del: Piece_rotate.simps)

lemma turn_entry_four:
  assumes "about a d"
  shows "turn_entry a t d (turn_entry a t d (turn_entry a t d (turn_entry a t d e))) = e"
proof -
  obtain x y z c where e: "e = ((x, y, z), c)" by (cases e) auto
  from assms show ?thesis
    by (rule about_cases)
       (simp_all add: e turn_entry_unit Piece_rotate_twice del: Piece_rotate.simps)
qed

lemma turn_entry_back:
  assumes "about a d" and "d = (d1, d2, d3)"
  shows "turn_entry a t (- d1, - d2, - d3) (turn_entry a t d e) = e"
proof -
  obtain x y z c where e: "e = ((x, y, z), c)" by (cases e) auto
  from assms(1) show ?thesis
    by (rule about_cases)
       (use assms(2) in \<open>simp_all add: e turn_entry_unit Piece_rotate_twice del: Piece_rotate.simps\<close>)
qed

lemma relabel_four:
  assumes "about a d"
  shows "relabel a t d (relabel a t d (relabel a t d (relabel a t d p))) = p"
proof -
  let ?c = "\<lparr>piece_x = None, piece_y = None, piece_z = None\<rparr>"
  let ?f = "turn_entry a t d"
  have "fst (?f (?f (?f (?f (p, ?c))))) = fst (p, ?c)"
    by (simp only: turn_entry_four [OF assms])
  then show ?thesis by (simp add: fst_turn_entry)
qed

lemma relabel_in_cube:
  assumes "about a d" and "p \<in> cube_positions l"
  shows "relabel a t d p \<in> cube_positions l"
proof -
  obtain x y z where p: "p = (x, y, z)" by (cases p)
  from assms(1) show ?thesis
    by (rule about_cases) (use assms(2) in \<open>simp_all add: p relabel_unit cube_positions_def\<close>)
qed

lemma relabel_image_cube:
  assumes "about a d"
  shows "relabel a t d ` cube_positions l = cube_positions l"
proof
  show "relabel a t d ` cube_positions l \<subseteq> cube_positions l"
    using relabel_in_cube [OF assms] by blast
  show "cube_positions l \<subseteq> relabel a t d ` cube_positions l"
  proof
    fix p assume p: "p \<in> cube_positions l"
    let ?q = "relabel a t d (relabel a t d (relabel a t d p))"
    have "?q \<in> cube_positions l"
      by (intro relabel_in_cube [OF assms] p)
    moreover have "relabel a t d ?q = p" by (rule relabel_four [OF assms])
    ultimately show "p \<in> relabel a t d ` cube_positions l" by (metis imageI)
  qed
qed

lemma turn_key_set:
  assumes "unit_rotation rotation" and "set (map fst (pieces self)) = cube_positions l"
  shows "set (map fst (pieces (turn rotation inverse_flag self))) = cube_positions l"
proof -
  have "set (map fst (pieces (turn rotation inverse_flag self))) =
        relabel (axis_of rotation) (rotation_sign rotation * coord_limit self)
          (rotation_direction rotation inverse_flag) ` set (map fst (pieces self))"
    unfolding turn_keys by (simp only: set_map)
  also have "\<dots> = cube_positions l"
    unfolding assms(2) by (rule relabel_image_cube [OF unit_rotation_about [OF assms(1)]])
  finally show ?thesis .
qed

lemma shell_ok_turn_entry:
  assumes "about a d" and "shell_ok l e"
  shows "shell_ok l (turn_entry a t d e)"
proof -
  obtain x y z c where e: "e = ((x, y, z), c)" by (cases e) auto
  from assms(1) show ?thesis
    by (rule about_cases)
       (use assms(2) in \<open>auto simp add: e turn_entry_unit shell_ok_def\<close>)
qed

lemma turn_shell:
  assumes "unit_rotation rotation" and "\<forall>e \<in> set (pieces self). shell_ok l e"
  shows "\<forall>e \<in> set (pieces (turn rotation inverse_flag self)). shell_ok l e"
  using assms(2) shell_ok_turn_entry [OF unit_rotation_about [OF assms(1)]]
  by (auto simp: turn_def)

lemma turn_four:
  assumes "unit_rotation r"
  shows "turn r i (turn r i (turn r i (turn r i s))) = s"
proof -
  let ?f = "turn_entry (axis_of r) (rotation_sign r * coord_limit s) (rotation_direction r i)"
  have "map ?f (map ?f (map ?f (map ?f (pieces s)))) = map (\<lambda>e. e) (pieces s)"
    unfolding map_map comp_def
    by (simp only: turn_entry_four [OF unit_rotation_about [OF assms]])
  then show ?thesis by (simp add: turn_def)
qed

lemma rotation_direction_neg:
  "rotation_direction r True = (case rotation_direction r False of (a, b, c) \<Rightarrow> (- a, - b, - c))"
  by (cases r) simp

lemma turn_back:
  assumes "unit_rotation r"
  shows "turn r True (turn r False s) = s"
proof -
  let ?a = "axis_of r" and ?t = "rotation_sign r * coord_limit s"
  obtain d1 d2 d3 where d: "rotation_direction r False = (d1, d2, d3)"
    by (cases "rotation_direction r False")
  have ab: "about ?a (d1, d2, d3)"
    using unit_rotation_about [OF assms, of False] d by simp
  have "map (turn_entry ?a ?t (- d1, - d2, - d3)) (map (turn_entry ?a ?t (d1, d2, d3)) (pieces s))
          = map (\<lambda>e. e) (pieces s)"
    unfolding map_map comp_def by (simp only: turn_entry_back [OF ab refl])
  then show ?thesis by (simp add: turn_def rotation_direction_neg d)
qed

lemma turn_inv:
  assumes "unit_rotation r" and "cube_inv l s"
  shows "cube_inv l (turn r i s)"
  using assms(2) turn_distinct [OF assms(1)] turn_key_set [OF assms(1)] turn_shell [OF assms(1)]
  unfolding cube_inv_def by (simp only: turn_fields) blast

lemma quarter_funs:
  "R = (\<lambda>self. make_rotation self (1, 0, 0) False)"
  "Ri = (\<lambda>self. make_rotation self (1, 0, 0) True)"
  "L = (\<lambda>self. make_rotation self (- 1, 0, 0) False)"
  "Li = (\<lambda>self. make_rotation self (- 1, 0, 0) True)"
  "F = (\<lambda>self. make_rotation self (0, 0, 1) False)"
  "Fi = (\<lambda>self. make_rotation self (0, 0, 1) True)"
  "B = (\<lambda>self. make_rotation self (0, 0, - 1) False)"
  "Bi = (\<lambda>self. make_rotation self (0, 0, - 1) True)"
  "U = (\<lambda>self. make_rotation self (0, 1, 0) False)"
  "Ui = (\<lambda>self. make_rotation self (0, 1, 0) True)"
  "D = (\<lambda>self. make_rotation self (0, - 1, 0) False)"
  "Di = (\<lambda>self. make_rotation self (0, - 1, 0) True)"
  by (rule ext, simp add: R_def Ri_def L_def Li_def F_def Fi_def B_def Bi_def U_def Ui_def D_def Di_def)+

lemma double_funs:
  "R2 = (\<lambda>self. then_call (R self) R)" "L2 = (\<lambda>self. then_call (L self) L)"
  "F2 = (\<lambda>self. then_call (F self) F)" "B2 = (\<lambda>self. then_call (B self) B)"
  "U2 = (\<lambda>self. then_call (U self) U)" "D2 = (\<lambda>self. then_call (D self) D)"
  by (rule ext, simp add: R2_def L2_def F2_def B2_def U2_def D2_def)+

lemma is_quarter_make_rotation: "unit_rotation r \<Longrightarrow> is_quarter (\<lambda>self. make_rotation self r i)"
  unfolding is_quarter_def by blast

lemma unit_rotations:
  "unit_rotation (1, 0, 0)" "unit_rotation (- 1, 0, 0)" "unit_rotation (0, 1, 0)"
  "unit_rotation (0, - 1, 0)" "unit_rotation (0, 0, 1)" "unit_rotation (0, 0, - 1)"
  by (simp_all add: unit_rotation_def)

lemma is_quarter_moves:
  "is_quarter R" "is_quarter Ri" "is_quarter L" "is_quarter Li" "is_quarter F" "is_quarter Fi"
  "is_quarter B" "is_quarter Bi" "is_quarter U" "is_quarter Ui" "is_quarter D" "is_quarter Di"
  unfolding quarter_funs by (rule is_quarter_make_rotation, rule unit_rotations)+

lemma quarter_turns_is_quarter: "m \<in> set quarter_turns \<Longrightarrow> is_quarter m"
  unfolding quarter_turns_def using is_quarter_moves by auto

lemma named_moves_cases:
  assumes "m \<in> set named_moves"
  obtains "is_quarter m" | q where "is_quarter q" "m = (\<lambda>self. then_call (q self) q)"
proof -
  from assms consider "m \<in> set quarter_turns" | "m \<in> set [R2, L2, F2, B2, U2, D2]"
    unfolding named_moves_def quarter_turns_def by auto
  then show ?thesis
  proof cases
    case 1
    then show ?thesis using that(1) quarter_turns_is_quarter by blast
  next
    case 2
    then consider "m = R2" | "m = L2" | "m = F2" | "m = B2" | "m = U2" | "m = D2" by auto
    then show ?thesis
      by cases (use that(2) is_quarter_moves double_funs in blast)+
  qed
qed

lemma then_call_Inr [simp]: "then_call (Inr s) f = f s"
  by (simp add: then_call_def)

lemma then_call_Inl [simp]: "then_call (Inl e) f = Inl e"
  by (simp add: then_call_def)

lemma foldl_dict_set_fresh:
  "distinct (map fst acc @ ks) \<Longrightarrow>
     foldl (\<lambda>d k. dict_set d k (f k)) acc ks = acc @ map (\<lambda>k. (k, f k)) ks"
proof (induction ks arbitrary: acc)
  case Nil
  then show ?case by simp
next
  case (Cons k ks)
  from Cons.prems have "k \<notin> fst ` set acc" by auto
  then have s: "dict_set acc k (f k) = acc @ [(k, f k)]" by (rule dict_set_fresh)
  from Cons.prems have "distinct (map fst (acc @ [(k, f k)]) @ ks)" by auto
  from Cons.IH [OF this] show ?case by (simp add: s)
qed

lemma init_positions_product:
  "init_positions self =
     List.product (coordinate_range self) (List.product (coordinate_range self) (coordinate_range self))"
  by (simp add: init_positions_def product_concat_map map_concat comp_def)

lemma distinct_init_positions: "distinct (init_positions self)"
  by (simp add: init_positions_product coordinate_range_def distinct_product)

lemma set_init_positions: "set (init_positions self) = cube_positions (coord_limit self)"
  by (auto simp add: init_positions_product coordinate_range_def cube_positions_def)

lemma pieces_Rubik_init:
  "pieces (Rubik_init n) =
     map (\<lambda>p. (p, get_init_piece_color \<lparr>rubik_size = n, coord_limit = n div 2, pieces = []\<rparr> p))
         (init_positions \<lparr>rubik_size = n, coord_limit = n div 2, pieces = []\<rparr>)"
  using foldl_dict_set_fresh [of "[]" "init_positions \<lparr>rubik_size = n, coord_limit = n div 2, pieces = []\<rparr>"]
  by (simp add: Rubik_init_def generate_init_pieces_def distinct_init_positions)

lemma fields_Rubik_init [simp]:
  "coord_limit (Rubik_init n) = n div 2" "rubik_size (Rubik_init n) = n"
  by (simp_all add: Rubik_init_def generate_init_pieces_def)

lemma keys_Rubik_init:
  "map fst (pieces (Rubik_init n)) =
     init_positions \<lparr>rubik_size = n, coord_limit = n div 2, pieces = []\<rparr>"
  by (simp add: pieces_Rubik_init comp_def)

lemma shell_ok_init:
  "shell_ok (coord_limit self) (p, get_init_piece_color self p)"
  by (cases p) (simp add: shell_ok_def get_init_piece_color_def)

lemma cube_inv_init: "cube_inv (n div 2) (Rubik_init n)"
  unfolding cube_inv_def keys_Rubik_init
  using shell_ok_init [of "\<lparr>rubik_size = n, coord_limit = n div 2, pieces = []\<rparr>"]
  by (auto simp add: distinct_init_positions set_init_positions pieces_Rubik_init)

lemma quarter_result:
  assumes "is_quarter m" and "distinct (map fst (pieces s))"
  obtains r i where "unit_rotation r" "m = (\<lambda>self. make_rotation self r i)" "m s = Inr (turn r i s)"
  using assms make_rotation_turn unfolding is_quarter_def by blast

lemma quarter_inv:
  assumes "is_quarter m" and "cube_inv l s"
  obtains s' where "m s = Inr s'" "cube_inv l s'"
proof -
  from assms(2) have d: "distinct (map fst (pieces s))" by (simp add: cube_inv_def)
  from assms(1) d obtain r i where "unit_rotation r" "m s = Inr (turn r i s)"
    by (rule quarter_result)
  with turn_inv [OF _ assms(2)] that show ?thesis by blast
qed

lemma named_move_inv:
  assumes "m \<in> set named_moves" and "cube_inv l s"
  obtains s' where "m s = Inr s'" "cube_inv l s'"
  using assms(1)
proof (rule named_moves_cases)
  assume "is_quarter m"
  then show ?thesis using assms(2) that by (rule quarter_inv)
next
  fix q assume q: "is_quarter q" and m: "m = (\<lambda>self. then_call (q self) q)"
  from q assms(2) obtain s1 where s1: "q s = Inr s1" "cube_inv l s1" by (rule quarter_inv)
  from q s1(2) obtain s2 where s2: "q s1 = Inr s2" "cube_inv l s2" by (rule quarter_inv)
  from s1 s2 have "m s = Inr s2" by (simp add: m)
  with s2 that show ?thesis by blast
qed

lemma reachable_inv: "reachable n s \<Longrightarrow> cube_inv (n div 2) s"
proof (induction rule: reachable.induct)
  case (init n)
  show ?case by (rule cube_inv_init)
next
  case (move n s m s')
  from move.hyps(2) move.IH obtain t where "m s = Inr t" "cube_inv (n div 2) t"
    by (rule named_move_inv)
  with move.hyps(3) show ?case by simp
qed

lemma named_move_returns:
  assumes "reachable n s" and "m \<in> set named_moves"
  shows "\<exists>s'. m s = Inr s' \<and> reachable n s'"
proof -
  from assms(2) reachable_inv [OF assms(1)] obtain t where t: "m s = Inr t"
    by (rule named_move_inv)
  with assms show ?thesis using reachable.move by blast
qed

lemma dict_get_map:
  "p \<in> set ks \<Longrightarrow> dict_get (map (\<lambda>k. (k, f k)) ks) p = Inr (f p)"
  by (induction ks) auto

lemma rotation_loop_returns:
  assumes "about a d"
  shows "\<exists>r. rotation_loop a t d ps acc = Inr r"
proof (induction ps arbitrary: acc)
  case Nil
  show ?case by simp
next
  case (Cons e ps)
  obtain p c where e: "e = (p, c)" by (cases e)
  obtain q where q: "new_position d p = Some q"
    using about_new_position [OF assms] by blast
  show ?case using Cons.IH by (simp add: e q del: new_position.simps)
qed

lemma is_quarter_returns:
  assumes "is_quarter m"
  shows "\<exists>s'. m s = Inr s'"
proof -
  from assms obtain r i where r: "unit_rotation r" and m: "m = (\<lambda>self. make_rotation self r i)"
    unfolding is_quarter_def by blast
  obtain ps where "rotation_loop (axis_of r) (rotation_sign r * coord_limit s)
                     (rotation_direction r i) (pieces s) [] = Inr ps"
    using rotation_loop_returns [OF unit_rotation_about [OF r]] by blast
  then show ?thesis
    by (simp add: m make_rotation_def unit_rotation_axis [OF r])
qed

lemma named_move_total:
  assumes "m \<in> set named_moves"
  shows "\<exists>s'. m s = Inr s'"
  using assms
proof (rule named_moves_cases)
  assume "is_quarter m"
  then show ?thesis by (rule is_quarter_returns)
next
  fix q assume q: "is_quarter q" and m: "m = (\<lambda>self. then_call (q self) q)"
  obtain s1 where s1: "q s = Inr s1" using is_quarter_returns [OF q] by blast
  obtain s2 where s2: "q s1 = Inr s2" using is_quarter_returns [OF q] by blast
  show ?thesis by (simp add: m s1 s2)
qed

lemma getattr_move_name:
  assumes "name \<in> set move_names"
  shows "\<exists>m \<in> set named_moves. Rubik_getattr name = Inr (Method m)"
  using assms
  by (auto simp add: move_names_def named_moves_def Rubik_getattr_def Rubik_attributes_def)

lemma dispatch_move_name:
  assumes "name \<in> set move_names"
  shows "\<exists>c. dispatch cube name = Some (Inr c)"
proof -
  from getattr_move_name [OF assms] obtain m
    where m: "m \<in> set named_moves" "Rubik_getattr name = Inr (Method m)" by blast
  from named_move_total [OF m(1)] obtain c where "m cube = Inr c" by blast
  with m(2) show ?thesis by (simp add: dispatch_def)
qed

lemma apply_moves_names:
  "set ts \<subseteq> set move_names \<Longrightarrow> \<exists>c. apply_moves cube ts = Some (Inr c)"
proof (induction ts arbitrary: cube)
  case Nil
  show ?case by simp
next
  case (Cons t ts)
  from Cons.prems have "t \<in> set move_names" by simp
  then obtain c where c: "dispatch cube t = Some (Inr c)"
    using dispatch_move_name by blast
  from Cons.prems have "set ts \<subseteq> set move_names" by simp
  from Cons.IH [OF this, of c] show ?case by (simp add: c)
qed

lemma apply_moves_append:
  "apply_moves cube pre = Some (Inr c) \<Longrightarrow> apply_moves cube (pre @ rest) = apply_moves c rest"
proof (induction pre arbitrary: cube)
  case Nil
  then show ?case by simp
next
  case (Cons t ts)
  then show ?case
    by (cases "dispatch cube t") (auto split: sum.splits)
qed

lemma getattr_missing:
  assumes "move \<notin> set attribute_names" and "\<not> dunder move"
  shows "Rubik_getattr move = Inl AttributeError"
proof -
  from assms(1) have "map_of Rubik_attributes move = None"
    by (simp add: attribute_names_def map_of_eq_None_iff)
  with assms(2) show ?thesis by (simp add: Rubik_getattr_def)
qed

lemma getattr_not_callable:
  assumes "move \<in> set attribute_names" and "move \<notin> set move_names"
    and "move \<noteq> ''_generate_init_pieces''"
  shows "Rubik_getattr move = Inr RequiresArguments \<or> Rubik_getattr move = Inr NotCallable"
  using assms
  by (auto simp add: attribute_names_def move_names_def Rubik_getattr_def Rubik_attributes_def)

lemma non_move_attribute_raises:
  assumes "move \<in> set attribute_names" and "move \<notin> set move_names"
    and "move \<noteq> ''_generate_init_pieces''"
  shows "make_move_callback cube move = Some (Inl (TypeError, cube))"
  using getattr_not_callable [OF assms]
  by (auto simp add: make_move_callback_def dispatch_def)

lemma perform_Cons: "m s = Inr s' \<Longrightarrow> perform (m # ms) s = perform ms s'"
  by (simp add: perform_def)

lemma apply_moves_perform:
  "set ts \<subseteq> set move_names \<Longrightarrow>
     apply_moves cube ts = Some (perform (map method_named ts) cube)"
proof (induction ts arbitrary: cube)
  case Nil
  show ?case by (simp add: perform_def)
next
  case (Cons t ts)
  from Cons.prems have "t \<in> set move_names" by simp
  from getattr_move_name [OF this] obtain m
    where m: "m \<in> set named_moves" "Rubik_getattr t = Inr (Method m)" by blast
  from named_move_total [OF m(1)] obtain c where c: "m cube = Inr c" by blast
  have mt: "method_named t = m" by (simp add: method_named_def m(2))
  from Cons.prems have "set ts \<subseteq> set move_names" by simp
  from Cons.IH [OF this, of c] show ?case
    by (simp add: dispatch_def m(2) c mt perform_Cons [of m cube c])
qed


section \<open>The claims\<close>

text \<open>
  C1. For every cube constructed with an odd positive size and every finite sequence of the
  eighteen named moves applied to it, the position-to-piece mapping has exactly one entry
  for every coordinate triple of \<open>[-limit, limit]\<^sup>3\<close>, where \<open>limit = size div 2\<close>: the keys
  are pairwise distinct and the set of keys is the whole coordinate cube.
\<close>

theorem bijection_invariant:
  assumes "reachable n s" and "odd n" and "0 < n"
  shows "distinct (map fst (pieces s)) \<and> set (map fst (pieces s)) = cube_positions (n div 2)"
  using reachable_inv [OF assms(1)] by (simp add: cube_inv_def)

theorem bijection_invariant_witness:
  "reachable 3 (Rubik_init 3) \<and> odd (3::int) \<and> (0::int) < 3 \<and>
   distinct (map fst (pieces (Rubik_init 3))) \<and>
   set (map fst (pieces (Rubik_init 3))) = cube_positions (3 div 2)"
proof -
  have h: "reachable 3 (Rubik_init 3)" by (rule reachable.init)
  show ?thesis using h bijection_invariant [OF h] by simp
qed

text \<open>
  C2. In every reachable state of a cube of odd positive size, the same quarter turn (one of
  R, L, U, D, F, B, Ri, Li, Ui, Di, Fi, Bi) called four times in succession returns
  normally each time and leaves the cube exactly as it was: the same entries, each piece
  at its position with its three labels.
\<close>

theorem quarter_turn_order_four:
  assumes "reachable n s" and "odd n" and "0 < n" and "m \<in> set quarter_turns"
  shows "then_call (then_call (then_call (m s) m) m) m = Inr s"
proof -
  have q: "is_quarter m" by (rule quarter_turns_is_quarter [OF assms(4)])
  have d0: "distinct (map fst (pieces s))"
    using reachable_inv [OF assms(1)] by (simp add: cube_inv_def)
  from q obtain r i where r: "unit_rotation r" and m: "m = (\<lambda>self. make_rotation self r i)"
    unfolding is_quarter_def by blast
  have step: "m t = Inr (turn r i t)" if "distinct (map fst (pieces t))" for t
    unfolding m using r that by (rule make_rotation_turn)
  note d1 = turn_distinct [OF r d0, of i]
  note d2 = turn_distinct [OF r d1, of i]
  note d3 = turn_distinct [OF r d2, of i]
  show ?thesis
    by (simp only: step [OF d0] step [OF d1] step [OF d2] step [OF d3] then_call_Inr
          turn_four [OF r])
qed

theorem quarter_turn_order_four_witness:
  "reachable 3 (Rubik_init 3) \<and> odd (3::int) \<and> (0::int) < 3 \<and> Fi \<in> set quarter_turns \<and>
   then_call (then_call (then_call (Fi (Rubik_init 3)) Fi) Fi) Fi = Inr (Rubik_init 3)"
proof -
  have h: "reachable 3 (Rubik_init 3)" by (rule reachable.init)
  have k: "Fi \<in> set quarter_turns" by (simp add: quarter_turns_def)
  show ?thesis using h k quarter_turn_order_four [OF h _ _ k] by simp
qed

text \<open>
  C3. In every reachable state of a cube of odd positive size, a quarter turn followed by
  its inverse (R then Ri, L then Li, U then Ui, D then Di, F then Fi, B then Bi) leaves
  the cube exactly as it was before the pair.
\<close>

theorem inverse_cancellation:
  assumes "reachable n s" and "odd n" and "0 < n" and "(m, mi) \<in> set inverse_pairs"
  shows "then_call (m s) mi = Inr s"
proof -
  have d0: "distinct (map fst (pieces s))"
    using reachable_inv [OF assms(1)] by (simp add: cube_inv_def)
  from assms(4) obtain r where r: "unit_rotation r"
    and m: "m = (\<lambda>self. make_rotation self r False)"
    and mi: "mi = (\<lambda>self. make_rotation self r True)"
    unfolding inverse_pairs_def using quarter_funs unit_rotations by auto
  have "m s = Inr (turn r False s)"
    unfolding m using r d0 by (rule make_rotation_turn)
  moreover have "mi (turn r False s) = Inr (turn r True (turn r False s))"
    unfolding mi using r turn_distinct [OF r d0] by (rule make_rotation_turn)
  ultimately show ?thesis by (simp add: turn_back [OF r])
qed

theorem inverse_cancellation_witness:
  "reachable 3 (Rubik_init 3) \<and> odd (3::int) \<and> (0::int) < 3 \<and> (U, Ui) \<in> set inverse_pairs \<and>
   then_call (U (Rubik_init 3)) Ui = Inr (Rubik_init 3)"
proof -
  have h: "reachable 3 (Rubik_init 3)" by (rule reachable.init)
  have k: "(U, Ui) \<in> set inverse_pairs" by (simp add: inverse_pairs_def)
  show ?thesis using h k inverse_cancellation [OF h _ _ k] by simp
qed

text \<open>
  C4. In every state reachable from the construction of a cube of odd positive size by
  named moves, the x label of each piece is present if and only if the x coordinate of the
  position the piece occupies is \<open>limit\<close> or \<open>-limit\<close>, and likewise for the y and the z
  label.
\<close>

theorem shell_color_invariant:
  assumes "reachable n s" and "odd n" and "0 < n" and "((x, y, z), c) \<in> set (pieces s)"
  shows "(piece_x c \<noteq> None) = (x = n div 2 \<or> x = - (n div 2)) \<and>
         (piece_y c \<noteq> None) = (y = n div 2 \<or> y = - (n div 2)) \<and>
         (piece_z c \<noteq> None) = (z = n div 2 \<or> z = - (n div 2))"
proof -
  from reachable_inv [OF assms(1)] assms(4) have "shell_ok (n div 2) ((x, y, z), c)"
    unfolding cube_inv_def by blast
  then show ?thesis by (simp add: shell_ok_def)
qed

theorem shell_color_invariant_witness:
  "reachable 3 (Rubik_init 3) \<and> odd (3::int) \<and> (0::int) < 3 \<and>
   ((1, 0, - 1), \<lparr>piece_x = Some ORANGE, piece_y = None, piece_z = Some BLUE\<rparr>)
     \<in> set (pieces (Rubik_init 3)) \<and>
   (piece_x \<lparr>piece_x = Some ORANGE, piece_y = None, piece_z = Some BLUE\<rparr> \<noteq> None) =
     ((1::int) = 3 div 2 \<or> (1::int) = - (3 div 2)) \<and>
   (piece_y \<lparr>piece_x = Some ORANGE, piece_y = None, piece_z = Some BLUE\<rparr> \<noteq> None) =
     ((0::int) = 3 div 2 \<or> (0::int) = - (3 div 2)) \<and>
   (piece_z \<lparr>piece_x = Some ORANGE, piece_y = None, piece_z = Some BLUE\<rparr> \<noteq> None) =
     ((- 1::int) = 3 div 2 \<or> (- 1::int) = - (3 div 2))"
proof -
  have h: "reachable 3 (Rubik_init 3)" by (rule reachable.init)
  have k: "((1, 0, - 1), \<lparr>piece_x = Some ORANGE, piece_y = None, piece_z = Some BLUE\<rparr>)
             \<in> set (pieces (Rubik_init 3))"
    by code_simp
  show ?thesis using h k shell_color_invariant [OF h _ _ k] by simp
qed

text \<open>
  C5. Immediately after the construction of a cube of odd positive size, the piece stored
  at each position \<open>(x, y, z)\<close> of the coordinate cube has the x label ORANGE if
  \<open>x = limit\<close>, RED if \<open>x = -limit\<close>, and none otherwise; the y label YELLOW if
  \<open>y = limit\<close>, WHITE if \<open>y = -limit\<close>, and none otherwise; the z label GREEN if
  \<open>z = limit\<close>, BLUE if \<open>z = -limit\<close>, and none otherwise. Each rule is read in its order,
  as the source's \<^verbatim>\<open>if\<close>/\<^verbatim>\<open>elif\<close>: in the cube of size 1, where \<open>limit = 0 = -limit\<close>, the
  single piece is ORANGE, YELLOW, GREEN.
\<close>

theorem initial_colors:
  assumes "odd n" and "0 < n" and "(x, y, z) \<in> cube_positions (n div 2)"
  shows "Rubik_getitem (Rubik_init n) (x, y, z) =
           Inr \<lparr>piece_x = (if x = n div 2 then Some ORANGE
                           else if x = - (n div 2) then Some RED else None),
                piece_y = (if y = n div 2 then Some YELLOW
                           else if y = - (n div 2) then Some WHITE else None),
                piece_z = (if z = n div 2 then Some GREEN
                           else if z = - (n div 2) then Some BLUE else None)\<rparr>"
proof -
  let ?c = "\<lparr>rubik_size = n, coord_limit = n div 2, pieces = []\<rparr>"
  from assms(3) have "(x, y, z) \<in> set (init_positions ?c)"
    by (simp add: set_init_positions)
  then have "dict_get (pieces (Rubik_init n)) (x, y, z) = Inr (get_init_piece_color ?c (x, y, z))"
    unfolding pieces_Rubik_init by (rule dict_get_map)
  then show ?thesis
    by (simp add: Rubik_getitem_def get_init_piece_color_def)
qed

theorem initial_colors_witness:
  "odd (3::int) \<and> (0::int) < 3 \<and> (1, - 1, 0) \<in> cube_positions (3 div 2) \<and>
   Rubik_getitem (Rubik_init 3) (1, - 1, 0) =
     Inr \<lparr>piece_x = Some ORANGE, piece_y = Some WHITE, piece_z = None\<rparr>"
proof -
  have h: "(1, - 1, 0) \<in> cube_positions (3 div 2)" by (simp add: cube_positions_def)
  show ?thesis using h initial_colors [OF _ _ h] by simp
qed

text \<open>
  C6, as the code has it. For every cube state and every token that names no attribute of
  the cube object (for example "Q"), that is, every token that is none of the names that
  \<^verbatim>\<open>model.py\<close> defines on a cube and has not the form \<^verbatim>\<open>__name__\<close>, dispatching the token
  with \<^verbatim>\<open>make_move_callback\<close> returns \<^verbatim>\<open>False\<close> and leaves the mapping, every position and
  every label of every piece, as it was before the call.
\<close>

theorem unknown_move_rejection:
  assumes "move \<notin> set attribute_names" and "\<not> dunder move"
  shows "make_move_callback cube move = Some (Inr (False, cube))"
  by (simp add: make_move_callback_def dispatch_def getattr_missing [OF assms])

theorem unknown_move_rejection_witness:
  "''Q'' \<notin> set attribute_names \<and> \<not> dunder ''Q'' \<and>
   make_move_callback (Rubik_init 3) ''Q'' = Some (Inr (False, Rubik_init 3))"
proof -
  have a: "''Q'' \<notin> set attribute_names"
    by (simp add: attribute_names_def Rubik_attributes_def)
  have b: "\<not> dunder ''Q''" by (simp add: dunder_def)
  show ?thesis using a b unknown_move_rejection [OF a b] by simp
qed

text \<open>
  C6 as stated fails: the token \<^verbatim>\<open>_generate_init_pieces\<close> is none of the eighteen move
  names, and the dynamic lookup finds the method of that name. On the cube of size 1 after
  the move R, whose piece has the labels ORANGE, GREEN, YELLOW, the call returns \<^verbatim>\<open>True\<close>
  and leaves the solved cube, with the labels ORANGE, YELLOW, GREEN.
\<close>

theorem unknown_move_counterexample:
  "''_generate_init_pieces'' \<notin> set move_names \<and>
   R (Rubik_init 1) =
     Inr \<lparr>rubik_size = 1, coord_limit = 0,
          pieces = [((0, 0, 0),
                     \<lparr>piece_x = Some ORANGE, piece_y = Some GREEN, piece_z = Some YELLOW\<rparr>)]\<rparr> \<and>
   make_move_callback
     \<lparr>rubik_size = 1, coord_limit = 0,
      pieces = [((0, 0, 0),
                 \<lparr>piece_x = Some ORANGE, piece_y = Some GREEN, piece_z = Some YELLOW\<rparr>)]\<rparr>
     ''_generate_init_pieces'' =
     Some (Inr (True,
       \<lparr>rubik_size = 1, coord_limit = 0,
        pieces = [((0, 0, 0),
                   \<lparr>piece_x = Some ORANGE, piece_y = Some YELLOW, piece_z = Some GREEN\<rparr>)]\<rparr>))"
  by code_simp

text \<open>
  C7, as the code has it. On the solved cube of size 3, \<^verbatim>\<open>chess_pattern()\<close> returns
  normally, and the mapping it leaves is the initial one with each key replaced by its
  \<open>chess_target\<close>: each of the twelve edge pieces is at the position opposite to its
  own, and the eight corner pieces, the six face centres and the cube centre are at their
  original positions; every piece keeps its three labels. The pieces of the solved cube
  have pairwise different labels, so the labels tell which piece is where.
\<close>

theorem chess_pattern_moves_edges:
  "chess_pattern (Rubik_init 3) =
     Some (Inr ((Rubik_init 3)\<lparr>pieces :=
                  map (\<lambda>(p, c). (chess_target p, c)) (pieces (Rubik_init 3))\<rparr>)) \<and>
   distinct (map snd (pieces (Rubik_init 3)))"
  by code_simp

text \<open>
  C7 as stated fails: the corner piece of position \<open>(1, 1, 1)\<close> is at \<open>(1, 1, 1)\<close> after
  the chess pattern, neither moved nor at a diagonally opposite slot.
\<close>

theorem chess_pattern_corner_counterexample:
  "piece_after (chess_pattern (Rubik_init 3)) (1, 1, 1) =
     Some \<lparr>piece_x = Some ORANGE, piece_y = Some YELLOW, piece_z = Some GREEN\<rparr> \<and>
   map_of (pieces (Rubik_init 3)) (1, 1, 1) =
     Some \<lparr>piece_x = Some ORANGE, piece_y = Some YELLOW, piece_z = Some GREEN\<rparr>"
  by code_simp

text \<open>
  C8, as the code has it. On the solved cube of size 3, the sequence R, U, Ri, Ui repeated
  six times (twenty-four moves) returns the cube to the solved state: every piece at its
  initial position with its initial labels.
\<close>

theorem commutator_six_times:
  "perform [R, U, Ri, Ui, R, U, Ri, Ui, R, U, Ri, Ui, R, U, Ri, Ui, R, U, Ri, Ui, R, U, Ri, Ui]
     (Rubik_init 3) = Inr (Rubik_init 3)"
  by code_simp

text \<open>
  C8 as stated fails: after the twelve moves R, U, Ri, Ui, R, U, Ri, Ui, R, U, Ri, Ui the
  position \<open>(1, 1, 1)\<close> holds a piece with the labels GREEN, WHITE, ORANGE, where the
  solved cube has ORANGE, YELLOW, GREEN.
\<close>

theorem commutator_three_times_counterexample:
  "piece_after (Some (perform [R, U, Ri, Ui, R, U, Ri, Ui, R, U, Ri, Ui] (Rubik_init 3)))
     (1, 1, 1) =
     Some \<lparr>piece_x = Some GREEN, piece_y = Some WHITE, piece_z = Some ORANGE\<rparr> \<and>
   map_of (pieces (Rubik_init 3)) (1, 1, 1) =
     Some \<lparr>piece_x = Some ORANGE, piece_y = Some YELLOW, piece_z = Some GREEN\<rparr>"
  by code_simp

text \<open>
  C9, as the code has it. The construction never fails: for every integer size the
  constructor returns a cube of that size, with coordinate limit \<open>size div 2\<close> and with
  exactly one entry for every triple of \<open>[-limit, limit]\<^sup>3\<close> (no entry at all when the
  limit is negative).
\<close>

theorem construction_total:
  "Rubik_new n = Inr (Rubik_init n) \<and> rubik_size (Rubik_init n) = n \<and>
   coord_limit (Rubik_init n) = n div 2 \<and> distinct (map fst (pieces (Rubik_init n))) \<and>
   set (map fst (pieces (Rubik_init n))) = cube_positions (n div 2)"
  using cube_inv_init [of n] by (simp add: Rubik_new_def cube_inv_def)

text \<open>
  C9 as stated fails: the sizes 0, -1 and 2 are constructed. Size 0 gives the one-piece
  cube, size -1 a cube without pieces, size 2 the pieces of the cube of size 3.
\<close>

theorem construction_counterexample:
  "Rubik_new 0 =
     Inr \<lparr>rubik_size = 0, coord_limit = 0,
          pieces = [((0, 0, 0),
                     \<lparr>piece_x = Some ORANGE, piece_y = Some YELLOW, piece_z = Some GREEN\<rparr>)]\<rparr> \<and>
   Rubik_new (- 1) = Inr \<lparr>rubik_size = - 1, coord_limit = - 1, pieces = []\<rparr> \<and>
   Rubik_new 2 = Inr ((Rubik_init 3)\<lparr>rubik_size := 2\<rparr>)"
  by code_simp

text \<open>
  C10, as the code has it. \<^verbatim>\<open>apply_notation(string)\<close> splits the string on whitespace and
  calls the tokens as methods of the cube from left to right. When the tokens before some
  token are move names and that token is neither a move name nor the name of another
  attribute that can be called without argument (\<^verbatim>\<open>_generate_init_pieces\<close>, or a name of
  the form \<^verbatim>\<open>__name__\<close> that \<^verbatim>\<open>model.py\<close> does not define), the call raises at that token,
  \<^verbatim>\<open>AttributeError\<close> or \<^verbatim>\<open>TypeError\<close>, and the cube it leaves is the one that the moves of
  the earlier tokens, performed in their order, have produced: nothing is rolled back and
  no later token is applied.
\<close>

theorem apply_notation_no_rollback:
  assumes "str_split notation = pre @ bad # post" and "set pre \<subseteq> set move_names"
    and "bad \<notin> set move_names" and "bad \<noteq> ''_generate_init_pieces''"
    and "dunder bad \<longrightarrow> bad \<in> set attribute_names"
  shows "\<exists>c. perform (map method_named pre) cube = Inr c \<and>
             apply_moves cube pre = Some (Inr c) \<and>
             (apply_notation cube notation = Some (Inl (AttributeError, c)) \<or>
              apply_notation cube notation = Some (Inl (TypeError, c)))"
proof -
  from apply_moves_names [OF assms(2)] obtain c where c: "apply_moves cube pre = Some (Inr c)"
    by blast
  have p: "perform (map method_named pre) cube = Inr c"
    using apply_moves_perform [OF assms(2), of cube] c by simp
  have n: "apply_notation cube notation = apply_moves c (bad # post)"
    by (simp add: apply_notation_def assms(1) apply_moves_append [OF c])
  have "dispatch c bad = Some (Inl (AttributeError, c)) \<or>
        dispatch c bad = Some (Inl (TypeError, c))"
  proof (cases "bad \<in> set attribute_names")
    case True
    from getattr_not_callable [OF True assms(3,4)] show ?thesis
      by (auto simp add: dispatch_def)
  next
    case False
    with assms(5) have "\<not> dunder bad" by blast
    from getattr_missing [OF False this] show ?thesis by (simp add: dispatch_def)
  qed
  then have "apply_moves c (bad # post) = Some (Inl (AttributeError, c)) \<or>
             apply_moves c (bad # post) = Some (Inl (TypeError, c))"
    by auto
  with c p n show ?thesis by simp
qed

theorem apply_notation_no_rollback_witness:
  "str_split ''R Q U'' = [''R''] @ ''Q'' # [''U''] \<and> ''R'' \<in> set move_names \<and>
   ''Q'' \<notin> set move_names \<and> ''Q'' \<noteq> ''_generate_init_pieces'' \<and> \<not> dunder ''Q'' \<and>
   perform (map method_named [''R'']) (Rubik_init 1) =
     Inr \<lparr>rubik_size = 1, coord_limit = 0,
          pieces = [((0, 0, 0),
                     \<lparr>piece_x = Some ORANGE, piece_y = Some GREEN, piece_z = Some YELLOW\<rparr>)]\<rparr> \<and>
   apply_notation (Rubik_init 1) ''R Q U'' =
     Some (Inl (AttributeError,
       \<lparr>rubik_size = 1, coord_limit = 0,
        pieces = [((0, 0, 0),
                   \<lparr>piece_x = Some ORANGE, piece_y = Some GREEN, piece_z = Some YELLOW\<rparr>)]\<rparr>))"
proof -
  let ?t = "\<lparr>rubik_size = 1, coord_limit = 0,
             pieces = [((0, 0, 0),
                        \<lparr>piece_x = Some ORANGE, piece_y = Some GREEN, piece_z = Some YELLOW\<rparr>)]\<rparr>"
  have h1: "str_split ''R Q U'' = [''R''] @ ''Q'' # [''U'']" by code_simp
  have h2: "set [''R''] \<subseteq> set move_names" by (simp add: move_names_def)
  have h3: "''Q'' \<notin> set move_names" by (simp add: move_names_def)
  have h4: "''Q'' \<noteq> ''_generate_init_pieces''" by simp
  have h5: "\<not> dunder ''Q''" by (simp add: dunder_def)
  have e: "apply_moves (Rubik_init 1) [''R''] = Some (Inr ?t)" by code_simp
  have ne: "apply_notation (Rubik_init 1) ''R Q U'' \<noteq> Some (Inl (TypeError, ?t))" by code_simp
  from h5 have h5': "dunder ''Q'' \<longrightarrow> ''Q'' \<in> set attribute_names" by simp
  from apply_notation_no_rollback [OF h1 h2 h3 h4 h5', of "Rubik_init 1"] e ne
  have "perform (map method_named [''R'']) (Rubik_init 1) = Inr ?t \<and>
        apply_notation (Rubik_init 1) ''R Q U'' = Some (Inl (AttributeError, ?t))"
    by auto
  with h1 h2 h3 h4 h5 show ?thesis by simp
qed

text \<open>
  C10 as stated fails: in the string \<^verbatim>\<open>R _generate_init_pieces\<close> the second token is not a
  move name, the call returns normally, and the move R of the first token does not remain
  applied: the cube of size 1 is left solved.
\<close>

theorem apply_notation_counterexample:
  "str_split ''R _generate_init_pieces'' = [''R'', ''_generate_init_pieces''] \<and>
   ''_generate_init_pieces'' \<notin> set move_names \<and>
   apply_notation (Rubik_init 1) ''R'' =
     Some (Inr \<lparr>rubik_size = 1, coord_limit = 0,
          pieces = [((0, 0, 0),
                     \<lparr>piece_x = Some ORANGE, piece_y = Some GREEN, piece_z = Some YELLOW\<rparr>)]\<rparr>) \<and>
   apply_notation (Rubik_init 1) ''R _generate_init_pieces'' =
     Some (Inr \<lparr>rubik_size = 1, coord_limit = 0,
          pieces = [((0, 0, 0),
                     \<lparr>piece_x = Some ORANGE, piece_y = Some YELLOW, piece_z = Some GREEN\<rparr>)]\<rparr>)"
  by code_simp

end
